theory Spec2Isabelle
  imports Main "HOL-Library.Word"
begin

section \<open>Zeno: WARC writing and page capture\<close>

text \<open>
  A shallow embedding of \<^verbatim>\<open>internal/pkg/crawl/warc.go\<close> (\<^verbatim>\<open>dumpResponseToFile\<close>,
  \<^verbatim>\<open>writeWARC\<close>, \<^verbatim>\<open>writeWARCFromConnection\<close> as a step relation) and of
  the capture file (\<^verbatim>\<open>captureWithBrowser\<close>, \<^verbatim>\<open>captureWithGET\<close>, \<^verbatim>\<open>Capture\<close>).

  Go's \<^verbatim>\<open>(string, error)\<close> results are pairs \<open>string \<times> error option\<close> (\<open>None\<close> is
  \<^verbatim>\<open>nil\<close>), because \<^verbatim>\<open>writeWARC\<close> returns a path next to an error. Everything the
  functions get from outside the repository (the operating system, \<^verbatim>\<open>net/http\<close>,
  \<^verbatim>\<open>httputil\<close>, the UUID generator, the browser) is a field of an environment record, so
  each failure the source checks for is a branch of the model.
\<close>

subsection \<open>Library functions the source calls\<close>

datatype error = Error string

text \<open>
  \<^verbatim>\<open>path/filepath\<close> on Unix. \<^verbatim>\<open>Join\<close> ignores leading empty elements, joins the rest
  with the separator and cleans the result; it returns the empty string only when every
  element is empty. \<^verbatim>\<open>Clean\<close> drops empty and \<^verbatim>\<open>.\<close> elements, resolves \<^verbatim>\<open>..\<close>
  against the element before it (dropping it at the root, keeping it at the start of a
  relative path) and turns an empty result into \<^verbatim>\<open>.\<close>.
\<close>

fun split_sep :: "string \<Rightarrow> string list" where
  "split_sep [] = [[]]"
| "split_sep (c # cs) =
     (if c = CHR ''/'' then [] # split_sep cs
      else (case split_sep cs of [] \<Rightarrow> [[c]] | e # es \<Rightarrow> (c # e) # es))"

fun join_sep :: "string list \<Rightarrow> string" where
  "join_sep [] = []"
| "join_sep [e] = e"
| "join_sep (e # es) = e @ ''/'' @ join_sep es"

fun clean_elems :: "bool \<Rightarrow> string list \<Rightarrow> string list \<Rightarrow> string list" where
  "clean_elems rooted out [] = rev out"
| "clean_elems rooted out (e # es) =
     (if e = [] \<or> e = ''.'' then clean_elems rooted out es
      else if e = ''..'' then
        (case out of
           [] \<Rightarrow> if rooted then clean_elems rooted out es
                 else clean_elems rooted (e # out) es
         | p # ps \<Rightarrow> if p = ''..'' then clean_elems rooted (e # out) es
                     else clean_elems rooted ps es)
      else clean_elems rooted (e # out) es)"

definition Clean :: "string \<Rightarrow> string" where
  "Clean path =
     (if path = [] then ''.''
      else
        (let rooted = (hd path = CHR ''/'');
             out = (if rooted then ''/'' else []) @ join_sep (clean_elems rooted [] (split_sep path))
         in if out = [] then ''.'' else out))"

definition filepath_Join :: "string list \<Rightarrow> string" where
  "filepath_Join elem =
     (case dropWhile (\<lambda>e. e = []) elem of
        [] \<Rightarrow> []
      | es \<Rightarrow> Clean (join_sep es))"

text \<open>A path element that \<^verbatim>\<open>Clean\<close> leaves alone.\<close>

definition plain_name :: "string \<Rightarrow> bool" where
  "plain_name e = (e \<noteq> [] \<and> e \<noteq> ''.'' \<and> e \<noteq> ''..'' \<and> CHR ''/'' \<notin> set e)"

text \<open>A non-empty relative or absolute path made of such elements.\<close>

definition plain_path :: "string \<Rightarrow> bool" where
  "plain_path p =
     (p \<noteq> [] \<and> list_all plain_name (split_sep (if hd p = CHR ''/'' then tl p else p)))"

text \<open>
  \<^verbatim>\<open>url.QueryEscape\<close>: letters, digits and \<^verbatim>\<open>-_.~\<close> stay, a space becomes \<^verbatim>\<open>+\<close>, every
  other byte becomes \<^verbatim>\<open>%XX\<close> in upper-case hexadecimal.
\<close>

definition shouldEscape :: "char \<Rightarrow> bool" where
  "shouldEscape c =
     (c \<notin> set ''abcdefghijklmnopqrstuvwxyzABCDEFGHIJKLMNOPQRSTUVWXYZ0123456789-_.~'')"

definition upperhex :: "nat \<Rightarrow> char" where
  "upperhex n = ''0123456789ABCDEF'' ! (n mod 16)"

definition escape_byte :: "char \<Rightarrow> string" where
  "escape_byte c =
     (if c = CHR '' '' then ''+''
      else if shouldEscape c
        then [CHR ''%'', upperhex (of_char c div 16), upperhex (of_char c mod 16)]
      else [c])"

definition QueryEscape :: "string \<Rightarrow> string" where
  "QueryEscape s = concat (map escape_byte s)"

subsection \<open>Data of \<^verbatim>\<open>warc.go\<close>\<close>

text \<open>
  \<^verbatim>\<open>*url.URL\<close>: the two things the source reads from it, the result of \<^verbatim>\<open>String()\<close> and
  the field \<^verbatim>\<open>Host\<close>. \<^verbatim>\<open>*http.Response\<close>: the status code, the field
  \<^verbatim>\<open>ContentLength\<close> (an \<^verbatim>\<open>int64\<close>, only compared, never computed with), the body
  as what reading it to its end returns, and the request it answers.
\<close>

record URL =
  url_String :: string
  Host :: string

record Request =
  req_URL :: URL

record Response =
  StatusCode :: int
  ContentLength :: int
  Body :: "error + string"
  Request :: Request

text \<open>
  \<^verbatim>\<open>warc.Record\<close> and \<^verbatim>\<open>warc.RecordBatch\<close> of the WARC library: a header map from
  names to values, a content reader (\<open>None\<close> is \<^verbatim>\<open>nil\<close>, otherwise the bytes it will
  deliver) and a payload path; a batch holds its records in order and \<open>Done\<close> tells
  whether a completion channel was made for it.
\<close>

record Record =
  Header :: "string \<rightharpoonup> string"
  Content :: "string option"
  PayloadPath :: string

record RecordBatch =
  Records :: "Record list"
  Done :: bool

definition NewRecord :: Record where
  "NewRecord = \<lparr>Header = Map.empty, Content = None, PayloadPath = []\<rparr>"

definition NewRecordBatch :: RecordBatch where
  "NewRecordBatch = \<lparr>Records = [], Done = False\<rparr>"

definition Header_Set :: "string \<Rightarrow> string \<Rightarrow> Record \<Rightarrow> Record" where
  "Header_Set k v r = r\<lparr>Header := (Header r)(k \<mapsto> v)\<rparr>"

text \<open>
  What a call does to the world outside: the files on disk (path to contents) and, in
  order, the operations on the writer's channels: a batch sent on \<^verbatim>\<open>c.WARCWriter\<close>, a
  receive on the batch's \<^verbatim>\<open>Done\<close> channel (which blocks until the writer signals).
\<close>

datatype chan_op = Send RecordBatch | RecvDone

record World =
  files :: "string \<rightharpoonup> string"
  ops :: "chan_op list"

text \<open>
  The outcomes of the calls into the libraries: the string of the UUID that
  \<^verbatim>\<open>uuid.NewV4\<close> draws, whether \<^verbatim>\<open>os.OpenFile\<close> fails for a path, the bytes
  \<^verbatim>\<open>resp.Write\<close> wrote to the file together with its error, and the dumps of
  \<^verbatim>\<open>httputil\<close>.
\<close>

record Env =
  NewV4 :: string
  OpenFile :: "string \<Rightarrow> error option"
  resp_Write :: "Response \<Rightarrow> string \<times> error option"
  DumpResponse :: "Response \<Rightarrow> error + string"
  DumpRequestOut :: "Request \<Rightarrow> error + string"

text \<open>
  Modelled from the spec: the struct \<^verbatim>\<open>Crawl\<close> is declared in a file that is not among
  the sources; these are the fields the two files read. The spec calls \<^verbatim>\<open>MaxHops\<close> a hop
  limit and hops non-negative integers, and the rate counter a counter with an increment
  (a 64-bit counter in the rate-counter library).
\<close>

record Crawl =
  JobPath :: string
  MaxHops :: nat
  Headless :: bool
  URLsPerSecond :: "64 word"

subsection \<open>\<^verbatim>\<open>dumpResponseToFile\<close>\<close>

text \<open>
  \<^verbatim>\<open>os.OpenFile\<close> with \<^verbatim>\<open>O_APPEND|O_CREATE|O_WRONLY\<close> creates the file empty when it
  does not exist and keeps it otherwise; writes go to its end. \<^verbatim>\<open>os.Remove\<close> deletes the
  file (its own error is ignored by the source; the empty path names no file).
\<close>

definition os_Create :: "string \<Rightarrow> World \<Rightarrow> World" where
  "os_Create p w =
     w\<lparr>files := (files w)(p \<mapsto> (case files w p of None \<Rightarrow> [] | Some old \<Rightarrow> old))\<rparr>"

definition file_Append :: "string \<Rightarrow> string \<Rightarrow> World \<Rightarrow> World" where
  "file_Append p bs w =
     w\<lparr>files := (files w)(p \<mapsto> (case files w p of None \<Rightarrow> [] | Some old \<Rightarrow> old) @ bs)\<rparr>"

definition os_Remove :: "string \<Rightarrow> World \<Rightarrow> World" where
  "os_Remove p w = (if p = [] then w else w\<lparr>files := (files w)(p := None)\<rparr>)"

definition spoolPath :: "Env \<Rightarrow> Crawl \<Rightarrow> string" where
  "spoolPath env c = filepath_Join [JobPath c, ''temp'', NewV4 env @ ''.temp'']"

definition dumpResponseToFile ::
  "Env \<Rightarrow> Crawl \<Rightarrow> Response \<Rightarrow> World \<Rightarrow> (string \<times> error option) \<times> World" where
  "dumpResponseToFile env c resp w =
     (let filePath = spoolPath env c in
      case OpenFile env filePath of
        Some err \<Rightarrow> (([], Some err), w)
      | None \<Rightarrow>
          (let w1 = os_Create filePath w;
               (written, werr) = resp_Write env resp;
               w2 = file_Append filePath written w1
           in case werr of
                Some err \<Rightarrow> (([], Some err), os_Remove filePath w2)
              | None \<Rightarrow> ((filePath, None), w2)))"

subsection \<open>\<^verbatim>\<open>writeWARC\<close>\<close>

definition responseRecord0 :: "Response \<Rightarrow> Record" where
  "responseRecord0 resp =
     Header_Set ''Content-Type'' ''application/http; msgtype=response''
       (Header_Set ''WARC-Target-URI'' (QueryEscape (url_String (req_URL (Request resp))))
         (Header_Set ''WARC-Type'' ''response'' NewRecord))"

definition requestRecord0 :: "Response \<Rightarrow> string \<Rightarrow> Record" where
  "requestRecord0 resp requestDump =
     (Header_Set ''Content-Type'' ''application/http; msgtype=request''
       (Header_Set ''Host'' (Host (req_URL (Request resp)))
         (Header_Set ''WARC-Target-URI'' (QueryEscape (url_String (req_URL (Request resp))))
           (Header_Set ''WARC-Type'' ''request'' NewRecord))))\<lparr>Content := Some requestDump\<rparr>"

text \<open>The part of \<^verbatim>\<open>writeWARC\<close> from the request dump on, common to both branches.\<close>

definition writeWARC_submit ::
  "Env \<Rightarrow> Response \<Rightarrow> Record \<Rightarrow> string \<Rightarrow> World \<Rightarrow> (string \<times> error option) \<times> World" where
  "writeWARC_submit env resp responseRecord responsePath w =
     (case DumpRequestOut env (Request resp) of
        Inl err \<Rightarrow> ((responsePath, Some err), os_Remove responsePath w)
      | Inr requestDump \<Rightarrow>
          (let requestRecord = requestRecord0 resp requestDump;
               batch = NewRecordBatch\<lparr>Records := Records NewRecordBatch @ [responseRecord, requestRecord]\<rparr>
           in if responsePath \<noteq> []
              then ((responsePath, None), w\<lparr>ops := ops w @ [Send (batch\<lparr>Done := True\<rparr>), RecvDone]\<rparr>)
              else ((responsePath, None), w\<lparr>ops := ops w @ [Send batch]\<rparr>)))"

definition writeWARC ::
  "Env \<Rightarrow> Crawl \<Rightarrow> Response \<Rightarrow> World \<Rightarrow> (string \<times> error option) \<times> World" where
  "writeWARC env c resp w =
     (let responseRecord = responseRecord0 resp in
      if ContentLength resp = - 1 \<or> ContentLength resp > 2097152 then
        (case dumpResponseToFile env c resp w of
           ((responsePath, Some err), w1) \<Rightarrow> ((responsePath, Some err), w1)
         | ((responsePath, None), w1) \<Rightarrow>
             writeWARC_submit env resp (responseRecord\<lparr>PayloadPath := responsePath\<rparr>) responsePath w1)
      else
        (case DumpResponse env resp of
           Inl err \<Rightarrow> (([], Some err), w)
         | Inr responseDump \<Rightarrow>
             writeWARC_submit env resp (responseRecord\<lparr>Content := Some responseDump\<rparr>) [] w))"

subsection \<open>\<^verbatim>\<open>writeWARCFromConnection\<close>\<close>

text \<open>
  The two tasks of \<^verbatim>\<open>writeWARCFromConnection\<close> each build one record from the URL and
  the bytes copied from their pipe.
\<close>

definition connRequestRecord :: "URL \<Rightarrow> string \<Rightarrow> Record" where
  "connRequestRecord u buf =
     (Header_Set ''Content-Type'' ''application/http; msgtype=request''
       (Header_Set ''Host'' (Host u)
         (Header_Set ''WARC-Target-URI'' (url_String u)
           (Header_Set ''WARC-Type'' ''request'' NewRecord))))\<lparr>Content := Some buf\<rparr>"

definition connResponseRecord :: "URL \<Rightarrow> string \<Rightarrow> Record" where
  "connResponseRecord u buf =
     (Header_Set ''Content-Type'' ''application/http; msgtype=response''
       (Header_Set ''Host'' (Host u)
         (Header_Set ''WARC-Target-URI'' (url_String u)
           (Header_Set ''WARC-Type'' ''response'' NewRecord))))\<lparr>Content := Some buf\<rparr>"

text \<open>
  The library \<^verbatim>\<open>github.com/remeh/sizedwaitgroup\<close> is not among the sources. A
  \<^verbatim>\<open>SizedWaitGroup\<close> is a buffered channel \<^verbatim>\<open>current\<close> of capacity \<^verbatim>\<open>Size\<close> (here
  the number of values in it) and a \<^verbatim>\<open>sync.WaitGroup\<close> (here its counter).
  \<^verbatim>\<open>New(limit)\<close> makes both empty; \<^verbatim>\<open>Add()\<close> puts a value into the channel, blocking
  while it is full, and increments the counter; \<^verbatim>\<open>Done()\<close> takes a value from the
  channel, blocking while it is empty, and decrements the counter, which panics below zero;
  \<^verbatim>\<open>Wait()\<close> blocks until the counter is zero. An operation either blocks, panics or
  goes on with a new state.
\<close>

datatype 'a outcome = Blocked | Panics | Next 'a

record SizedWaitGroup =
  Size :: nat
  current :: nat
  wg :: nat

definition swg_New :: "nat \<Rightarrow> SizedWaitGroup" where
  "swg_New limit = \<lparr>Size = (if limit > 0 then limit else 2147483647), current = 0, wg = 0\<rparr>"

definition swg_Add :: "SizedWaitGroup \<Rightarrow> SizedWaitGroup outcome" where
  "swg_Add g =
     (if current g < Size g then Next (g\<lparr>current := current g + 1, wg := wg g + 1\<rparr>)
      else Blocked)"

definition swg_Done :: "SizedWaitGroup \<Rightarrow> SizedWaitGroup outcome" where
  "swg_Done g =
     (if current g = 0 then Blocked
      else if wg g = 0 then Panics
      else Next (g\<lparr>current := current g - 1, wg := wg g - 1\<rparr>))"

definition swg_Wait :: "SizedWaitGroup \<Rightarrow> SizedWaitGroup outcome" where
  "swg_Wait g = (if wg g = 0 then Next g else Blocked)"

text \<open>
  \<^verbatim>\<open>writeWARCFromConnection\<close> runs three goroutines: the caller's and the two tasks it
  starts with \<^verbatim>\<open>go\<close>. Each is a program counter over its synchronisation points, and one
  step of the function is one step of one of them.

  A task copies its pipe into a buffer (\<^verbatim>\<open>io.Copy\<close>; an error makes it panic), sends its
  record on the unbuffered channel \<^verbatim>\<open>recordChan\<close>, and at its end, also when panicking,
  runs the deferred \<^verbatim>\<open>swg.Done()\<close>. The send is a rendezvous: it happens only while the
  caller is receiving in its loop, and moves both. A panic whose deferred call returns ends
  the whole program (\<open>conn_crashed\<close>).

  The caller runs \<^verbatim>\<open>swg.Wait()\<close>, receives twice from \<^verbatim>\<open>recordChan\<close> appending each
  record to the batch, sends the batch on \<^verbatim>\<open>c.WARCWriter\<close> and returns, which runs the
  deferred \<^verbatim>\<open>c.WaitGroup.Done()\<close>. The source calls \<^verbatim>\<open>swg.Add()\<close> nowhere.
\<close>

datatype main_pc = M_Wait | M_Loop nat | M_Returned

datatype task_pc = T_Copy | T_Send string | T_Panic error | T_Done | T_Finished

datatype actor = Main | RequestTask | ResponseTask

record Conn =
  conn_main :: main_pc
  conn_req :: task_pc
  conn_resp :: task_pc
  conn_swg :: SizedWaitGroup
  conn_batch :: RecordBatch
  conn_WARCWriter :: "chan_op list"
  conn_WaitGroup_Done :: nat
  conn_crashed :: bool

definition conn_init :: Conn where
  "conn_init =
     \<lparr>conn_main = M_Wait, conn_req = T_Copy, conn_resp = T_Copy, conn_swg = swg_New 2,
      conn_batch = NewRecordBatch, conn_WARCWriter = [], conn_WaitGroup_Done = 0, conn_crashed = False\<rparr>"

definition task_step ::
  "(error + string) \<Rightarrow> (string \<Rightarrow> Record) \<Rightarrow> task_pc \<Rightarrow> Conn \<Rightarrow> (task_pc \<times> Conn) option" where
  "task_step pipe record pc s =
     (if conn_crashed s then None
      else case pc of
        T_Copy \<Rightarrow>
          (case pipe of
             Inl err \<Rightarrow> Some (T_Panic err, s)
           | Inr buf \<Rightarrow> Some (T_Send buf, s))
      | T_Send buf \<Rightarrow>
          (case conn_main s of
             M_Loop i \<Rightarrow>
               if i < 2
               then Some (T_Done,
                      s\<lparr>conn_batch := (conn_batch s)\<lparr>Records := Records (conn_batch s) @ [record buf]\<rparr>,
                        conn_main := M_Loop (i + 1)\<rparr>)
               else None
           | _ \<Rightarrow> None)
      | T_Panic err \<Rightarrow>
          (case swg_Done (conn_swg s) of
             Blocked \<Rightarrow> None
           | Panics \<Rightarrow> Some (T_Finished, s\<lparr>conn_crashed := True\<rparr>)
           | Next g \<Rightarrow> Some (T_Finished, s\<lparr>conn_swg := g, conn_crashed := True\<rparr>))
      | T_Done \<Rightarrow>
          (case swg_Done (conn_swg s) of
             Blocked \<Rightarrow> None
           | Panics \<Rightarrow> Some (T_Finished, s\<lparr>conn_crashed := True\<rparr>)
           | Next g \<Rightarrow> Some (T_Finished, s\<lparr>conn_swg := g\<rparr>))
      | T_Finished \<Rightarrow> None)"

definition main_step :: "Conn \<Rightarrow> Conn option" where
  "main_step s =
     (if conn_crashed s then None
      else case conn_main s of
        M_Wait \<Rightarrow>
          (case swg_Wait (conn_swg s) of
             Next g \<Rightarrow> Some (s\<lparr>conn_main := M_Loop 0\<rparr>)
           | _ \<Rightarrow> None)
      | M_Loop i \<Rightarrow>
          if i < 2 then None
          else Some (s\<lparr>conn_WARCWriter := conn_WARCWriter s @ [Send (conn_batch s)],
                       conn_WaitGroup_Done := conn_WaitGroup_Done s + 1, conn_main := M_Returned\<rparr>)
      | M_Returned \<Rightarrow> None)"

record Pipes =
  conn_URL :: URL
  req_pipe :: "error + string"
  resp_pipe :: "error + string"

fun step_of :: "Pipes \<Rightarrow> actor \<Rightarrow> Conn \<Rightarrow> Conn option" where
  "step_of io Main s = main_step s"
| "step_of io RequestTask s =
     (case task_step (req_pipe io) (connRequestRecord (conn_URL io)) (conn_req s) s of
        None \<Rightarrow> None
      | Some (pc, t) \<Rightarrow> Some (t\<lparr>conn_req := pc\<rparr>))"
| "step_of io ResponseTask s =
     (case task_step (resp_pipe io) (connResponseRecord (conn_URL io)) (conn_resp s) s of
        None \<Rightarrow> None
      | Some (pc, t) \<Rightarrow> Some (t\<lparr>conn_resp := pc\<rparr>))"

definition conn_step :: "Pipes \<Rightarrow> Conn \<Rightarrow> Conn \<Rightarrow> bool" where
  "conn_step io s t =
     (step_of io Main s = Some t \<or> step_of io RequestTask s = Some t \<or>
      step_of io ResponseTask s = Some t)"

fun run :: "Pipes \<Rightarrow> actor list \<Rightarrow> Conn \<Rightarrow> Conn option" where
  "run io [] s = Some s"
| "run io (a # as) s = (case step_of io a s of None \<Rightarrow> None | Some t \<Rightarrow> run io as t)"

text \<open>
  What holds of every state the function reaches when both pipes deliver their bytes, and
  a measure that every step decreases.
\<close>

fun task_ok :: "string \<Rightarrow> task_pc \<Rightarrow> bool" where
  "task_ok b T_Copy = True"
| "task_ok b (T_Send buf) = (buf = b)"
| "task_ok b T_Done = True"
| "task_ok b (T_Panic e) = False"
| "task_ok b T_Finished = False"

definition received :: "Conn \<Rightarrow> nat" where
  "received s =
     (if conn_req s = T_Done then 1 else 0) + (if conn_resp s = T_Done then 1 else 0)"

definition conn_inv :: "URL \<Rightarrow> string \<Rightarrow> string \<Rightarrow> Conn \<Rightarrow> bool" where
  "conn_inv u rq rs s =
     (\<not> conn_crashed s \<and> conn_swg s = swg_New 2 \<and>
      task_ok rq (conn_req s) \<and> task_ok rs (conn_resp s) \<and>
      Done (conn_batch s) = False \<and>
      (if conn_req s = T_Done \<and> conn_resp s = T_Done
       then Records (conn_batch s) = [connRequestRecord u rq, connResponseRecord u rs] \<or>
            Records (conn_batch s) = [connResponseRecord u rs, connRequestRecord u rq]
       else if conn_req s = T_Done then Records (conn_batch s) = [connRequestRecord u rq]
       else if conn_resp s = T_Done then Records (conn_batch s) = [connResponseRecord u rs]
       else Records (conn_batch s) = []) \<and>
      (case conn_main s of
         M_Wait \<Rightarrow> received s = 0 \<and> conn_WARCWriter s = [] \<and> conn_WaitGroup_Done s = 0
       | M_Loop i \<Rightarrow> i = received s \<and> conn_WARCWriter s = [] \<and> conn_WaitGroup_Done s = 0
       | M_Returned \<Rightarrow>
           received s = 2 \<and> conn_WARCWriter s = [Send (conn_batch s)] \<and>
           conn_WaitGroup_Done s = 1))"

fun main_rank :: "main_pc \<Rightarrow> nat" where
  "main_rank M_Wait = 4"
| "main_rank (M_Loop i) = 1 + (2 - i)"
| "main_rank M_Returned = 0"

fun task_rank :: "task_pc \<Rightarrow> nat" where
  "task_rank T_Copy = 3"
| "task_rank (T_Send buf) = 2"
| "task_rank (T_Panic e) = 2"
| "task_rank T_Done = 1"
| "task_rank T_Finished = 0"

definition conn_measure :: "Conn \<Rightarrow> nat" where
  "conn_measure s = main_rank (conn_main s) + task_rank (conn_req s) + task_rank (conn_resp s)"

subsection \<open>Capture\<close>

record Item =
  item_URL :: URL
  Hop :: nat
  Hash :: string

text \<open>
  Modelled from the spec: \<^verbatim>\<open>needBrowser\<close> and \<^verbatim>\<open>extractOutlinks\<close> are functions of the
  package whose file is not among the sources. The spec has the first as a capability
  probe of the item and the second as a pure function from a string to URLs; both are
  parameters here. The other fields are the outcomes of \<^verbatim>\<open>http.Get\<close> and of the
  browser actions that \<^verbatim>\<open>chromedp.Run\<close> executes.
\<close>

record Net =
  needBrowser :: "Item \<Rightarrow> bool"
  extractOutlinks :: "string \<Rightarrow> URL list"
  http_Get :: "string \<Rightarrow> error + Response"
  network_Enable :: "error option"
  Navigate :: "string \<Rightarrow> error option"
  GetDocument :: "error + nat"
  GetOuterHTML :: "nat \<Rightarrow> error + string"

text \<open>The calls a capture makes, in order, so that a call not made can be told.\<close>

datatype call =
    CallEnable
  | CallNavigate string
  | CallGetDocument
  | CallGetOuterHTML nat
  | CallGet string
  | CallReadAll
  | CallExtractOutlinks string

text \<open>
  The \<^verbatim>\<open>ActionFunc\<close> of \<^verbatim>\<open>captureWithBrowser\<close>. It assigns the captured variable
  \<^verbatim>\<open>outlinks\<close>, which is \<^verbatim>\<open>nil\<close> before; the result carries its value after.
\<close>

definition outlinksAction :: "Net \<Rightarrow> Crawl \<Rightarrow> (URL list \<times> error option) \<times> call list" where
  "outlinksAction net c =
     (if MaxHops c > 0 then
        (case GetDocument net of
           Inl err \<Rightarrow> (([], Some err), [CallGetDocument])
         | Inr node \<Rightarrow>
             (case GetOuterHTML net node of
                Inl err \<Rightarrow> (([], Some err), [CallGetDocument, CallGetOuterHTML node])
              | Inr str \<Rightarrow>
                  ((extractOutlinks net str, None),
                   [CallGetDocument, CallGetOuterHTML node, CallExtractOutlinks str])))
      else (([], None), []))"

text \<open>\<^verbatim>\<open>chromedp.Run\<close> runs its actions in order and stops at the first error.\<close>

definition captureWithBrowser ::
  "Net \<Rightarrow> Crawl \<Rightarrow> Item \<Rightarrow> (URL list \<times> error option) \<times> call list" where
  "captureWithBrowser net c item =
     (case network_Enable net of
        Some err \<Rightarrow> (([], Some err), [CallEnable])
      | None \<Rightarrow>
          (case Navigate net (url_String (item_URL item)) of
             Some err \<Rightarrow> (([], Some err), [CallEnable, CallNavigate (url_String (item_URL item))])
           | None \<Rightarrow>
               (case outlinksAction net c of
                  (r, calls) \<Rightarrow>
                    (r, [CallEnable, CallNavigate (url_String (item_URL item))] @ calls))))"

definition captureWithGET ::
  "Net \<Rightarrow> Crawl \<Rightarrow> Item \<Rightarrow> (URL list \<times> error option) \<times> call list" where
  "captureWithGET net c item =
     (case http_Get net (url_String (item_URL item)) of
        Inl err \<Rightarrow> (([], Some err), [CallGet (url_String (item_URL item))])
      | Inr resp \<Rightarrow>
          (case Body resp of
             Inl err \<Rightarrow> (([], Some err), [CallGet (url_String (item_URL item)), CallReadAll])
           | Inr body \<Rightarrow>
               ((extractOutlinks net body, None),
                [CallGet (url_String (item_URL item)), CallReadAll, CallExtractOutlinks body])))"

definition Incr :: "64 word \<Rightarrow> Crawl \<Rightarrow> Crawl" where
  "Incr val c = c\<lparr>URLsPerSecond := URLsPerSecond c + val\<rparr>"

definition Capture ::
  "Net \<Rightarrow> Crawl \<Rightarrow> Item \<Rightarrow> (URL list \<times> error option) \<times> Crawl \<times> call list" where
  "Capture net c item =
     (case (if needBrowser net item \<and> Headless c = True
            then captureWithBrowser net c item
            else captureWithGET net c item) of
        ((outlinks, err), calls) \<Rightarrow>
          (let c' = Incr 1 c in
           case err of
             Some e \<Rightarrow> (([], Some e), c', calls)
           | None \<Rightarrow> ((outlinks, None), c', calls)))"

subsection \<open>Reading a result\<close>

fun sent_batches :: "chan_op list \<Rightarrow> RecordBatch list" where
  "sent_batches [] = []"
| "sent_batches (Send b # xs) = b # sent_batches xs"
| "sent_batches (RecvDone # xs) = sent_batches xs"

definition has_payload_path :: "RecordBatch \<Rightarrow> bool" where
  "has_payload_path batch = list_ex (\<lambda>r. PayloadPath r \<noteq> []) (Records batch)"

definition extraction_attempted :: "call list \<Rightarrow> bool" where
  "extraction_attempted calls =
     list_ex (\<lambda>x. case x of CallExtractOutlinks s \<Rightarrow> True | _ \<Rightarrow> False) calls"

subsection \<open>Concrete inputs\<close>

definition ex_url :: URL where
  "ex_url = \<lparr>url_String = ''http://a.b/x y'', Host = ''a.b''\<rparr>"

definition ex_resp :: "int \<Rightarrow> Response" where
  "ex_resp n =
     \<lparr>StatusCode = 200, ContentLength = n, Body = Inr ''<a href=/y>'',
      Request = \<lparr>req_URL = ex_url\<rparr>\<rparr>"

definition ex_env :: Env where
  "ex_env =
     \<lparr>NewV4 = ''u1'', OpenFile = (\<lambda>p. None), resp_Write = (\<lambda>r. (''W'', None)),
      DumpResponse = (\<lambda>r. Inr ''R''), DumpRequestOut = (\<lambda>r. Inr ''Q'')\<rparr>"

definition ex_crawl :: Crawl where
  "ex_crawl = \<lparr>JobPath = ''jobs/j1'', MaxHops = 0, Headless = True, URLsPerSecond = 41\<rparr>"

definition ex_world :: World where
  "ex_world = \<lparr>files = Map.empty, ops = []\<rparr>"

definition ex_item :: Item where
  "ex_item = \<lparr>item_URL = ex_url, Hop = 0, Hash = ''h''\<rparr>"

definition ex_net :: Net where
  "ex_net =
     \<lparr>needBrowser = (\<lambda>i. True), extractOutlinks = (\<lambda>s. [ex_url]),
      http_Get = (\<lambda>u. Inr (ex_resp 11)), network_Enable = None, Navigate = (\<lambda>u. None),
      GetDocument = Inr 1, GetOuterHTML = (\<lambda>n. Inr ''<a href=/y>'')\<rparr>"

definition ex_env_reqfail :: Env where
  "ex_env_reqfail = ex_env\<lparr>DumpRequestOut := (\<lambda>r. Inl (Error ''dump''))\<rparr>"

definition ex_env_writefail :: Env where
  "ex_env_writefail = ex_env\<lparr>resp_Write := (\<lambda>r. (''W'', Some (Error ''short write'')))\<rparr>"

definition ex_env_openfail :: Env where
  "ex_env_openfail = ex_env\<lparr>OpenFile := (\<lambda>p. Some (Error ''open''))\<rparr>"

definition ex_crawl_nojob :: Crawl where
  "ex_crawl_nojob = ex_crawl\<lparr>JobPath := []\<rparr>"

definition ex_pipes :: Pipes where
  "ex_pipes = \<lparr>conn_URL = ex_url, req_pipe = Inr ''Q'', resp_pipe = Inr ''R''\<rparr>"


definition ex_final :: Conn where
  "ex_final =
     \<lparr>conn_main = M_Returned, conn_req = T_Done, conn_resp = T_Done, conn_swg = swg_New 2,
      conn_batch = \<lparr>Records = [connResponseRecord ex_url ''R'', connRequestRecord ex_url ''Q''],
                     Done = False\<rparr>,
      conn_WARCWriter =
        [Send \<lparr>Records = [connResponseRecord ex_url ''R'', connRequestRecord ex_url ''Q''],
                Done = False\<rparr>],
      conn_WaitGroup_Done = 1, conn_crashed = False\<rparr>"

section \<open>Properties\<close>

subsection \<open>Paths and the two dumps\<close>

lemma Clean_nonempty: "Clean p \<noteq> []"
  by (simp add: Clean_def Let_def)

lemma filepath_Join_nonempty: "e \<noteq> [] \<Longrightarrow> e \<in> set elem \<Longrightarrow> filepath_Join elem \<noteq> []"
proof -
  assume "e \<noteq> []" "e \<in> set elem"
  then have "dropWhile (\<lambda>e. e = []) elem \<noteq> []"
    by auto
  then show ?thesis
    by (auto simp: filepath_Join_def Clean_nonempty split: list.splits)
qed

lemma spoolPath_nonempty: "spoolPath env c \<noteq> []"
  unfolding spoolPath_def by (rule filepath_Join_nonempty [of "''temp''"]) simp_all

text \<open>
  For a job path made of plain elements, relative or absolute, the spool path is the job
  path followed by \<^verbatim>\<open>/temp/\<close>, the UUID and \<^verbatim>\<open>.temp\<close>.
\<close>

lemma split_sep_no_sep: "CHR ''/'' \<notin> set e \<Longrightarrow> split_sep e = [e]"
  by (induction e) auto

lemma split_sep_append:
  "CHR ''/'' \<notin> set e \<Longrightarrow> split_sep (e @ CHR ''/'' # s) = e # split_sep s"
  by (induction e) auto

lemma split_sep_join_sep:
  "es \<noteq> [] \<Longrightarrow> \<forall>e\<in>set es. CHR ''/'' \<notin> set e \<Longrightarrow> split_sep (join_sep es) = es"
proof (induction es rule: join_sep.induct)
  case 1
  then show ?case by simp
next
  case (2 e)
  then show ?case by (simp add: split_sep_no_sep)
next
  case (3 e v va)
  then show ?case by (simp add: split_sep_append)
qed

lemma clean_elems_plain:
  "\<forall>e\<in>set es. plain_name e \<Longrightarrow> clean_elems rooted out es = rev out @ es"
  by (induction es arbitrary: out) (auto simp: plain_name_def)

lemma join_sep_append:
  "xs \<noteq> [] \<Longrightarrow> ys \<noteq> [] \<Longrightarrow> join_sep (xs @ ys) = join_sep xs @ ''/'' @ join_sep ys"
proof (induction xs rule: join_sep.induct)
  case 1
  then show ?case by simp
next
  case (2 e)
  then show ?case by (cases ys) simp_all
next
  case (3 e v va)
  then show ?case by simp
qed

lemma join_sep_plain_hd:
  "es \<noteq> [] \<Longrightarrow> \<forall>e\<in>set es. plain_name e \<Longrightarrow>
     join_sep es \<noteq> [] \<and> hd (join_sep es) \<noteq> CHR ''/''"
proof -
  assume "es \<noteq> []" and p: "\<forall>e\<in>set es. plain_name e"
  then obtain e rest where es: "es = e # rest"
    by (cases es) auto
  with p have "e \<noteq> []" "CHR ''/'' \<notin> set e"
    by (simp_all add: plain_name_def)
  then have "e \<noteq> []" "hd e \<noteq> CHR ''/''"
    by (cases e; auto)+
  then show ?thesis
    by (cases rest) (simp_all add: es hd_append)
qed

lemma Clean_plain:
  assumes "es \<noteq> []" and "\<forall>e\<in>set es. plain_name e" and "root = [] \<or> root = ''/''"
  shows "Clean (root @ join_sep es) = root @ join_sep es"
proof -
  from assms(2) have ns: "\<forall>e\<in>set es. CHR ''/'' \<notin> set e"
    by (simp add: plain_name_def)
  note hd = join_sep_plain_hd [OF assms(1,2)]
  from assms(3) show ?thesis
  proof
    assume "root = []"
    with hd show ?thesis
      by (simp add: Clean_def Let_def split_sep_join_sep [OF assms(1) ns]
          clean_elems_plain [OF assms(2)])
  next
    assume "root = ''/''"
    with hd show ?thesis
      by (simp add: Clean_def Let_def split_sep_join_sep [OF assms(1) ns]
          clean_elems_plain [OF assms(2)])
  qed
qed

lemma spoolPath_plain:
  assumes j: "JobPath c = root @ join_sep js" and r: "root = [] \<or> root = ''/''"
    and js: "js \<noteq> []" "\<forall>e\<in>set js. plain_name e"
    and u: "CHR ''/'' \<notin> set (NewV4 env)"
  shows "spoolPath env c = JobPath c @ ''/temp/'' @ NewV4 env @ ''.temp''"
proof -
  let ?f = "NewV4 env @ ''.temp''"
  from u have pf: "plain_name ?f"
    by (auto simp: plain_name_def append_eq_Cons_conv)
  have pt: "plain_name ''temp''"
    by (simp add: plain_name_def)
  from js pf pt have all: "\<forall>e\<in>set (js @ [''temp'', ?f]). plain_name e"
    by simp
  from join_sep_plain_hd [OF js] j have ne: "JobPath c \<noteq> []"
    by simp
  then have dw: "dropWhile (\<lambda>e. e = []) [JobPath c, ''temp'', ?f] = [JobPath c, ''temp'', ?f]"
    by simp
  have jn: "join_sep [JobPath c, ''temp'', ?f] = root @ join_sep (js @ [''temp'', ?f])"
    using js(1) by (simp add: j join_sep_append)
  have "spoolPath env c = Clean (join_sep [JobPath c, ''temp'', ?f])"
    by (simp only: spoolPath_def filepath_Join_def dw list.case)
  also have "\<dots> = Clean (root @ join_sep (js @ [''temp'', ?f]))"
    by (simp only: jn)
  also have "\<dots> = root @ join_sep (js @ [''temp'', ?f])"
    by (rule Clean_plain [OF _ all r]) simp
  also have "\<dots> = JobPath c @ ''/temp/'' @ ?f"
    using js(1) by (simp add: j join_sep_append)
  finally show ?thesis .
qed

lemma split_sep_not_Nil: "split_sep s \<noteq> []"
  by (induction s) (auto split: list.splits)

lemma join_sep_Cons: "es \<noteq> [] \<Longrightarrow> join_sep (e # es) = e @ ''/'' @ join_sep es"
  by (cases es) simp_all

lemma join_sep_split_sep: "join_sep (split_sep s) = s"
proof (induction s)
  case Nil
  show ?case by simp
next
  case (Cons c cs)
  obtain e es where s: "split_sep cs = e # es"
    using split_sep_not_Nil [of cs] by (cases "split_sep cs") auto
  with Cons show ?case
    by (cases es) auto
qed

lemma plain_path_decompose:
  assumes "plain_path p"
  shows "\<exists>root js. p = root @ join_sep js \<and> (root = [] \<or> root = ''/'') \<and> js \<noteq> [] \<and>
           (\<forall>e\<in>set js. plain_name e)"
proof -
  let ?q = "if hd p = CHR ''/'' then tl p else p"
  let ?root = "if hd p = CHR ''/'' then ''/'' else []"
  from assms have ne: "p \<noteq> []" and all: "\<forall>e\<in>set (split_sep ?q). plain_name e"
    by (simp_all add: plain_path_def list_all_iff)
  from ne have "p = ?root @ ?q"
    by (cases p) auto
  then have "p = ?root @ join_sep (split_sep ?q)"
    by (simp only: join_sep_split_sep)
  moreover have "?root = [] \<or> ?root = ''/''"
    by simp
  ultimately show ?thesis
    using all split_sep_not_Nil by blast
qed

subsection \<open>What the two functions of \<^verbatim>\<open>warc.go\<close> compute\<close>

lemma dumpResponseToFile_cases:
  "dumpResponseToFile env c resp w =
     (case OpenFile env (spoolPath env c) of
        Some err \<Rightarrow> (([], Some err), w)
      | None \<Rightarrow>
          (case snd (resp_Write env resp) of
             Some err \<Rightarrow>
               (([], Some err), w\<lparr>files := (files w)(spoolPath env c := None)\<rparr>)
           | None \<Rightarrow>
               ((spoolPath env c, None),
                w\<lparr>files := (files w)(spoolPath env c \<mapsto>
                     (case files w (spoolPath env c) of None \<Rightarrow> [] | Some old \<Rightarrow> old)
                       @ fst (resp_Write env resp))\<rparr>)))"
  by (simp add: dumpResponseToFile_def Let_def os_Create_def file_Append_def os_Remove_def
      spoolPath_nonempty split: option.splits prod.splits)


lemma writeWARC_submit_success:
  assumes "writeWARC_submit env resp rr rp w = ((p, None), w')"
  shows "p = rp \<and> (\<exists>requestDump. DumpRequestOut env (Request resp) = Inr requestDump \<and>
           w' = w\<lparr>ops := ops w @
                  (if rp \<noteq> []
                   then [Send \<lparr>Records = [rr, requestRecord0 resp requestDump], Done = True\<rparr>, RecvDone]
                   else [Send \<lparr>Records = [rr, requestRecord0 resp requestDump], Done = False\<rparr>])\<rparr>)"
  using assms
  by (auto simp: writeWARC_submit_def Let_def NewRecordBatch_def split: sum.splits if_splits)

lemma writeWARC_success:
  assumes "writeWARC env c resp w = ((p, None), w')"
  shows "\<exists>requestDump. DumpRequestOut env (Request resp) = Inr requestDump \<and>
     (if ContentLength resp = - 1 \<or> ContentLength resp > 2097152
      then p = spoolPath env c \<and> OpenFile env p = None \<and> snd (resp_Write env resp) = None \<and>
           w' = \<lparr>files = (files w)(p \<mapsto>
                    (case files w p of None \<Rightarrow> [] | Some old \<Rightarrow> old) @ fst (resp_Write env resp)),
                 ops = ops w @
                   [Send \<lparr>Records = [(responseRecord0 resp)\<lparr>PayloadPath := p\<rparr>,
                                     requestRecord0 resp requestDump], Done = True\<rparr>, RecvDone]\<rparr>
      else p = [] \<and> (\<exists>responseDump. DumpResponse env resp = Inr responseDump \<and>
           w' = \<lparr>files = files w,
                 ops = ops w @
                   [Send \<lparr>Records = [(responseRecord0 resp)\<lparr>Content := Some responseDump\<rparr>,
                                     requestRecord0 resp requestDump], Done = False\<rparr>]\<rparr>))"
proof (cases "ContentLength resp = - 1 \<or> ContentLength resp > 2097152")
  case True
  obtain q e w1 where d: "dumpResponseToFile env c resp w = ((q, e), w1)"
    by (metis surj_pair)
  from assms True d have e: "e = None"
    by (cases e) (auto simp: writeWARC_def Let_def)
  from d e have q: "q = spoolPath env c" "OpenFile env q = None" "snd (resp_Write env resp) = None"
    and w1: "w1 = w\<lparr>files := (files w)(q \<mapsto>
               (case files w q of None \<Rightarrow> [] | Some old \<Rightarrow> old) @ fst (resp_Write env resp))\<rparr>"
    by (auto simp: dumpResponseToFile_cases split: option.splits)
  from assms True d e
  have "writeWARC_submit env resp ((responseRecord0 resp)\<lparr>PayloadPath := q\<rparr>) q w1 = ((p, None), w')"
    by (simp add: writeWARC_def Let_def)
  from writeWARC_submit_success [OF this] q w1 True spoolPath_nonempty [of env c]
  show ?thesis by auto
next
  case False
  from assms False obtain responseDump where r: "DumpResponse env resp = Inr responseDump"
    by (cases "DumpResponse env resp") (auto simp: writeWARC_def Let_def)
  from assms False r
  have "writeWARC_submit env resp ((responseRecord0 resp)\<lparr>Content := Some responseDump\<rparr>) [] w = ((p, None), w')"
    by (simp add: writeWARC_def Let_def)
  from writeWARC_submit_success [OF this] r False
  show ?thesis by auto
qed

lemma responseRecord0_fields [simp]:
  "Content (responseRecord0 resp) = None" "PayloadPath (responseRecord0 resp) = []"
  "Header (responseRecord0 resp) ''WARC-Type'' = Some ''response''"
  "Header (responseRecord0 resp) ''Host'' = None"
  by (simp_all add: responseRecord0_def Header_Set_def NewRecord_def)

lemma requestRecord0_fields [simp]:
  "Content (requestRecord0 resp d) = Some d" "PayloadPath (requestRecord0 resp d) = []"
  "Header (requestRecord0 resp d) ''WARC-Type'' = Some ''request''"
  "Header (requestRecord0 resp d) ''Host'' = Some (Host (req_URL (Request resp)))"
  by (simp_all add: requestRecord0_def Header_Set_def NewRecord_def)


lemma sent_batches_append: "sent_batches (xs @ ys) = sent_batches xs @ sent_batches ys"
  by (induction xs rule: sent_batches.induct) simp_all

lemmas run_defs = writeWARC_def writeWARC_submit_def dumpResponseToFile_def os_Create_def
  file_Append_def os_Remove_def spoolPath_def filepath_Join_def Clean_def Let_def
  NewRecordBatch_def

lemmas ex_defs = ex_env_def ex_crawl_def ex_resp_def ex_world_def ex_url_def

subsection \<open>The size threshold of \<^verbatim>\<open>writeWARC\<close>\<close>

text \<open>
  C1, as stated, fails at a content length of exactly 2,097,152 bytes: the source's test
  is \<^verbatim>\<open>ContentLength > 2097152\<close>, so this response is dumped in memory (both records
  carry content, neither a payload path) and no spool file is made.
\<close>

theorem writeWARC_threshold_counterexample:
  "ContentLength (ex_resp 2097152) = 2097152 \<and>
   fst (writeWARC ex_env ex_crawl (ex_resp 2097152) ex_world) = ([], None) \<and>
   map Content (Records (hd (sent_batches (ops (snd
     (writeWARC ex_env ex_crawl (ex_resp 2097152) ex_world)))))) = [Some ''R'', Some ''Q''] \<and>
   map PayloadPath (Records (hd (sent_batches (ops (snd
     (writeWARC ex_env ex_crawl (ex_resp 2097152) ex_world)))))) = [[], []] \<and>
   files (snd (writeWARC ex_env ex_crawl (ex_resp 2097152) ex_world))
     (spoolPath ex_env ex_crawl) = None"
  by (simp add: writeWARC_def writeWARC_submit_def Let_def NewRecordBatch_def ex_defs)

text \<open>
  C1 (amended): in a call of \<^verbatim>\<open>writeWARC\<close> that returns without error, the response
  record is buffered in memory (content set, no payload path, no file touched) exactly when
  the content length is not \<open>-1\<close> and is at most 2,097,152; when it is \<open>-1\<close> or greater
  than 2,097,152 the response is spooled to the temp file and the record's
  \<^verbatim>\<open>PayloadPath\<close> is that file, which holds what \<^verbatim>\<open>resp.Write\<close> wrote.
\<close>

theorem writeWARC_size_policy:
  assumes "writeWARC env c resp w = ((p, None), w')"
  shows "\<exists>responseRecord requestRecord d.
           sent_batches (ops w') =
             sent_batches (ops w) @ [\<lparr>Records = [responseRecord, requestRecord], Done = d\<rparr>] \<and>
           (if ContentLength resp \<noteq> - 1 \<and> ContentLength resp \<le> 2097152
            then (\<exists>responseDump. DumpResponse env resp = Inr responseDump \<and>
                    Content responseRecord = Some responseDump) \<and>
                 PayloadPath responseRecord = [] \<and> files w' = files w
            else Content responseRecord = None \<and> PayloadPath responseRecord = p \<and>
                 p = spoolPath env c \<and> p \<noteq> [] \<and>
                 files w' p = Some ((case files w p of None \<Rightarrow> [] | Some old \<Rightarrow> old)
                                      @ fst (resp_Write env resp)))"
  using writeWARC_success [OF assms] spoolPath_nonempty [of env c]
  by (auto simp: sent_batches_append split: if_splits)


theorem writeWARC_size_policy_witness:
  "writeWARC ex_env ex_crawl (ex_resp 2097153) ex_world =
     ((''jobs/j1/temp/u1.temp'', None), snd (writeWARC ex_env ex_crawl (ex_resp 2097153) ex_world)) \<and>
   PayloadPath (hd (Records (hd (sent_batches (ops (snd
     (writeWARC ex_env ex_crawl (ex_resp 2097153) ex_world))))))) = ''jobs/j1/temp/u1.temp'' \<and>
   files (snd (writeWARC ex_env ex_crawl (ex_resp 2097153) ex_world)) ''jobs/j1/temp/u1.temp''
     = Some ''W'' \<and>
   writeWARC ex_env ex_crawl (ex_resp 2097152) ex_world =
     (([], None), snd (writeWARC ex_env ex_crawl (ex_resp 2097152) ex_world)) \<and>
   Content (hd (Records (hd (sent_batches (ops (snd
     (writeWARC ex_env ex_crawl (ex_resp 2097152) ex_world))))))) = Some ''R'' \<and>
   files (snd (writeWARC ex_env ex_crawl (ex_resp 2097152) ex_world)) = files ex_world"
proof -
  have h: "writeWARC ex_env ex_crawl (ex_resp 2097153) ex_world =
     ((''jobs/j1/temp/u1.temp'', None), snd (writeWARC ex_env ex_crawl (ex_resp 2097153) ex_world))"
    by (simp add: run_defs ex_defs)
  have g: "writeWARC ex_env ex_crawl (ex_resp 2097152) ex_world =
     (([], None), snd (writeWARC ex_env ex_crawl (ex_resp 2097152) ex_world))"
    by (simp add: run_defs ex_defs)
  have w: "files ex_world ''jobs/j1/temp/u1.temp'' = None" "sent_batches (ops ex_world) = []"
    "ContentLength (ex_resp 2097153) = 2097153" "fst (resp_Write ex_env (ex_resp 2097153)) = ''W''"
    "ContentLength (ex_resp 2097152) = 2097152" "DumpResponse ex_env (ex_resp 2097152) = Inr ''R''"
    by (simp_all add: ex_defs)
  from writeWARC_size_policy [OF h] have spooled:
    "PayloadPath (hd (Records (hd (sent_batches (ops (snd
       (writeWARC ex_env ex_crawl (ex_resp 2097153) ex_world))))))) = ''jobs/j1/temp/u1.temp'' \<and>
     files (snd (writeWARC ex_env ex_crawl (ex_resp 2097153) ex_world)) ''jobs/j1/temp/u1.temp''
       = Some ''W''"
    by (auto simp: w)
  from writeWARC_size_policy [OF g] have buffered:
    "Content (hd (Records (hd (sent_batches (ops (snd
       (writeWARC ex_env ex_crawl (ex_resp 2097152) ex_world))))))) = Some ''R'' \<and>
     files (snd (writeWARC ex_env ex_crawl (ex_resp 2097152) ex_world)) = files ex_world"
    by (auto simp: w)
  from h g spooled buffered show ?thesis
    by (intro conjI) simp_all
qed


subsection \<open>Record headers\<close>

text \<open>
  C3: every record handed to the writer should carry \<^verbatim>\<open>WARC-Type\<close>,
  \<^verbatim>\<open>WARC-Target-URI\<close>, \<^verbatim>\<open>Host\<close> and \<^verbatim>\<open>Content-Type\<close>. In \<^verbatim>\<open>writeWARC\<close> the
  response record is never given a \<^verbatim>\<open>Host\<close> header: for a small response of
  \<^verbatim>\<open>http://a.b/x y\<close> the batch holds a response record without \<^verbatim>\<open>Host\<close> and a request
  record with it.
\<close>

theorem writeWARC_response_record_no_Host:
  "fst (writeWARC ex_env ex_crawl (ex_resp 11) ex_world) = ([], None) \<and>
   map (\<lambda>r. Header r ''WARC-Type'') (Records (hd (sent_batches (ops (snd
     (writeWARC ex_env ex_crawl (ex_resp 11) ex_world)))))) = [Some ''response'', Some ''request''] \<and>
   map (\<lambda>r. Header r ''Host'') (Records (hd (sent_batches (ops (snd
     (writeWARC ex_env ex_crawl (ex_resp 11) ex_world)))))) = [None, Some ''a.b'']"
  by (simp add: run_defs ex_defs)

text \<open>
  The records of \<^verbatim>\<open>writeWARCFromConnection\<close> carry all four headers (the target URI as
  \<^verbatim>\<open>URL.String()\<close> gives it), and so do the other headers of \<^verbatim>\<open>writeWARC\<close>.
\<close>

lemma connection_records_headers:
  "Header (connRequestRecord u b) ''WARC-Type'' = Some ''request''"
  "Header (connRequestRecord u b) ''WARC-Target-URI'' = Some (url_String u)"
  "Header (connRequestRecord u b) ''Host'' = Some (Host u)"
  "Header (connRequestRecord u b) ''Content-Type'' = Some ''application/http; msgtype=request''"
  "Header (connResponseRecord u b) ''WARC-Type'' = Some ''response''"
  "Header (connResponseRecord u b) ''WARC-Target-URI'' = Some (url_String u)"
  "Header (connResponseRecord u b) ''Host'' = Some (Host u)"
  "Header (connResponseRecord u b) ''Content-Type'' = Some ''application/http; msgtype=response''"
  by (simp_all add: connRequestRecord_def connResponseRecord_def Header_Set_def)

lemma writeWARC_records_headers:
  "Header (requestRecord0 resp d) ''WARC-Target-URI'' = Some (QueryEscape (url_String (req_URL (Request resp))))"
  "Header (requestRecord0 resp d) ''Content-Type'' = Some ''application/http; msgtype=request''"
  "Header (responseRecord0 resp) ''WARC-Target-URI'' = Some (QueryEscape (url_String (req_URL (Request resp))))"
  "Header (responseRecord0 resp) ''Content-Type'' = Some ''application/http; msgtype=response''"
  by (simp_all add: requestRecord0_def responseRecord0_def Header_Set_def)

subsection \<open>The batch and its completion channel\<close>

text \<open>
  C4: a successful \<^verbatim>\<open>writeWARC\<close> sends one batch; the batch has its \<^verbatim>\<open>Done\<close> channel
  and the send is followed by a receive on it exactly when a record of the batch has a
  payload path, which is exactly when the response was spooled (a non-empty returned path,
  no in-memory content on the response record); otherwise the batch has no \<^verbatim>\<open>Done\<close>
  channel and nothing follows the send.
\<close>

theorem writeWARC_Done_iff_payload_path:
  assumes "writeWARC env c resp w = ((p, None), w')"
  shows "\<exists>batch.
           (if has_payload_path batch
            then Done batch \<and> ops w' = ops w @ [Send batch, RecvDone]
            else \<not> Done batch \<and> ops w' = ops w @ [Send batch]) \<and>
           has_payload_path batch = (p \<noteq> []) \<and>
           has_payload_path batch = (Content (hd (Records batch)) = None)"
proof (cases "ContentLength resp = - 1 \<or> ContentLength resp > 2097152")
  case True
  with writeWARC_success [OF assms] obtain requestDump where
    p: "p = spoolPath env c" and
    o: "ops w' = ops w @ [Send \<lparr>Records = [(responseRecord0 resp)\<lparr>PayloadPath := p\<rparr>,
                            requestRecord0 resp requestDump], Done = True\<rparr>, RecvDone]"
    by auto
  from p have "p \<noteq> []"
    by (simp add: spoolPath_nonempty)
  with o show ?thesis
    by (intro exI [of _ "\<lparr>Records = [(responseRecord0 resp)\<lparr>PayloadPath := p\<rparr>,
                            requestRecord0 resp requestDump], Done = True\<rparr>"])
       (simp add: has_payload_path_def)
next
  case False
  with writeWARC_success [OF assms] obtain requestDump responseDump where
    p: "p = []" and
    o: "ops w' = ops w @ [Send \<lparr>Records = [(responseRecord0 resp)\<lparr>Content := Some responseDump\<rparr>,
                            requestRecord0 resp requestDump], Done = False\<rparr>]"
    by auto
  then show ?thesis
    by (intro exI [of _ "\<lparr>Records = [(responseRecord0 resp)\<lparr>Content := Some responseDump\<rparr>,
                            requestRecord0 resp requestDump], Done = False\<rparr>"])
       (simp add: has_payload_path_def)
qed

theorem writeWARC_Done_iff_payload_path_witness:
  "writeWARC ex_env ex_crawl (ex_resp 11) ex_world =
     (([], None), snd (writeWARC ex_env ex_crawl (ex_resp 11) ex_world)) \<and>
   (\<exists>batch. \<not> Done batch \<and> \<not> has_payload_path batch \<and>
      ops (snd (writeWARC ex_env ex_crawl (ex_resp 11) ex_world)) = [Send batch]) \<and>
   writeWARC ex_env ex_crawl (ex_resp (- 1)) ex_world =
     ((''jobs/j1/temp/u1.temp'', None), snd (writeWARC ex_env ex_crawl (ex_resp (- 1)) ex_world)) \<and>
   (\<exists>batch. Done batch \<and> has_payload_path batch \<and>
      ops (snd (writeWARC ex_env ex_crawl (ex_resp (- 1)) ex_world)) = [Send batch, RecvDone])"
proof -
  have h: "writeWARC ex_env ex_crawl (ex_resp 11) ex_world =
     (([], None), snd (writeWARC ex_env ex_crawl (ex_resp 11) ex_world))"
    by (simp add: run_defs ex_defs)
  have g: "writeWARC ex_env ex_crawl (ex_resp (- 1)) ex_world =
     ((''jobs/j1/temp/u1.temp'', None), snd (writeWARC ex_env ex_crawl (ex_resp (- 1)) ex_world))"
    by (simp add: run_defs ex_defs)
  have w: "ops ex_world = []"
    by (simp add: ex_defs)
  from writeWARC_Done_iff_payload_path [OF h] have buffered:
    "\<exists>batch. \<not> Done batch \<and> \<not> has_payload_path batch \<and>
       ops (snd (writeWARC ex_env ex_crawl (ex_resp 11) ex_world)) = [Send batch]"
    by (auto simp: w split: if_splits)
  from writeWARC_Done_iff_payload_path [OF g] have spooled:
    "\<exists>batch. Done batch \<and> has_payload_path batch \<and>
       ops (snd (writeWARC ex_env ex_crawl (ex_resp (- 1)) ex_world)) = [Send batch, RecvDone]"
    by (auto simp: w split: if_splits)
  from h g buffered spooled show ?thesis
    by (intro conjI) simp_all
qed

text \<open>
  C8: a successful \<^verbatim>\<open>writeWARC\<close> submits exactly one batch, of exactly two records, the
  response record first and the request record second.
\<close>

theorem writeWARC_batch_order:
  assumes "writeWARC env c resp w = ((p, None), w')"
  shows "\<exists>responseRecord requestRecord d.
           sent_batches (ops w') =
             sent_batches (ops w) @ [\<lparr>Records = [responseRecord, requestRecord], Done = d\<rparr>] \<and>
           Header responseRecord ''WARC-Type'' = Some ''response'' \<and>
           Header requestRecord ''WARC-Type'' = Some ''request''"
  using writeWARC_success [OF assms]
  by (auto simp: sent_batches_append split: if_splits)

theorem writeWARC_batch_order_witness:
  "writeWARC ex_env ex_crawl (ex_resp (- 1)) ex_world =
     ((''jobs/j1/temp/u1.temp'', None), snd (writeWARC ex_env ex_crawl (ex_resp (- 1)) ex_world)) \<and>
   (\<exists>responseRecord requestRecord d.
      sent_batches (ops (snd (writeWARC ex_env ex_crawl (ex_resp (- 1)) ex_world))) =
        [\<lparr>Records = [responseRecord, requestRecord], Done = d\<rparr>] \<and>
      Header responseRecord ''WARC-Type'' = Some ''response'' \<and>
      Header requestRecord ''WARC-Type'' = Some ''request'')"
proof -
  have h: "writeWARC ex_env ex_crawl (ex_resp (- 1)) ex_world =
     ((''jobs/j1/temp/u1.temp'', None), snd (writeWARC ex_env ex_crawl (ex_resp (- 1)) ex_world))"
    by (simp add: run_defs ex_defs)
  have w: "sent_batches (ops ex_world) = []"
    by (simp add: ex_defs)
  from writeWARC_batch_order [OF h] show ?thesis
    using h by (simp add: w)
qed


subsection \<open>Spool files on the error paths\<close>

text \<open>
  C5: when the response was spooled (the file exists after \<^verbatim>\<open>dumpResponseToFile\<close>) and
  the request dump then fails, \<^verbatim>\<open>writeWARC\<close> returns that error, the spool file is gone
  in the world it leaves, and nothing was sent to the writer.
\<close>

theorem writeWARC_removes_spool_on_request_dump_error:
  assumes "ContentLength resp = - 1 \<or> ContentLength resp > 2097152"
    and "dumpResponseToFile env c resp w = ((p, None), w1)"
    and "DumpRequestOut env (Request resp) = Inl e"
  shows "files w1 p \<noteq> None \<and>
         fst (writeWARC env c resp w) = (p, Some e) \<and>
         files (snd (writeWARC env c resp w)) p = None \<and>
         ops (snd (writeWARC env c resp w)) = ops w"
proof -
  from assms(2) have p: "p = spoolPath env c" and f: "files w1 p \<noteq> None" and o: "ops w1 = ops w"
    by (auto simp: dumpResponseToFile_cases split: option.splits)
  from p have "p \<noteq> []"
    by (simp add: spoolPath_nonempty)
  with assms f o show ?thesis
    by (simp add: writeWARC_def writeWARC_submit_def os_Remove_def Let_def)
qed

theorem writeWARC_removes_spool_on_request_dump_error_witness:
  "(ContentLength (ex_resp (- 1)) = - 1 \<or> ContentLength (ex_resp (- 1)) > 2097152) \<and>
   dumpResponseToFile ex_env_reqfail ex_crawl (ex_resp (- 1)) ex_world =
     ((''jobs/j1/temp/u1.temp'', None),
      \<lparr>files = [''jobs/j1/temp/u1.temp'' \<mapsto> ''W''], ops = []\<rparr>) \<and>
   DumpRequestOut ex_env_reqfail (Request (ex_resp (- 1))) = Inl (Error ''dump'') \<and>
   fst (writeWARC ex_env_reqfail ex_crawl (ex_resp (- 1)) ex_world) =
     (''jobs/j1/temp/u1.temp'', Some (Error ''dump'')) \<and>
   files (snd (writeWARC ex_env_reqfail ex_crawl (ex_resp (- 1)) ex_world))
     ''jobs/j1/temp/u1.temp'' = None"
proof -
  have h1: "ContentLength (ex_resp (- 1)) = - 1 \<or> ContentLength (ex_resp (- 1)) > 2097152"
    by (simp add: ex_defs)
  have h2: "dumpResponseToFile ex_env_reqfail ex_crawl (ex_resp (- 1)) ex_world =
     ((''jobs/j1/temp/u1.temp'', None),
      \<lparr>files = [''jobs/j1/temp/u1.temp'' \<mapsto> ''W''], ops = []\<rparr>)"
    by (simp add: run_defs ex_defs ex_env_reqfail_def)
  have h3: "DumpRequestOut ex_env_reqfail (Request (ex_resp (- 1))) = Inl (Error ''dump'')"
    by (simp add: ex_defs ex_env_reqfail_def)
  from writeWARC_removes_spool_on_request_dump_error [OF h1 h2 h3] h1 h2 h3
  show ?thesis by simp
qed

text \<open>
  More generally, with a fresh spool path every erroring \<^verbatim>\<open>writeWARC\<close> leaves the files
  as they were.
\<close>

lemma writeWARC_error_leaves_files:
  assumes "writeWARC env c resp w = ((p, Some e), w')"
    and "files w (spoolPath env c) = None"
  shows "files w' = files w \<and> ops w' = ops w"
proof (cases "ContentLength resp = - 1 \<or> ContentLength resp > 2097152")
  case True
  have n: "spoolPath env c \<noteq> []"
    by (rule spoolPath_nonempty)
  from assms(2) have u: "(files w)(spoolPath env c := None) = files w"
    by (simp add: fun_upd_idem)
  from assms(1) True n u show ?thesis
    by (auto simp: writeWARC_def writeWARC_submit_def dumpResponseToFile_cases os_Remove_def
        Let_def split: option.splits sum.splits if_splits)
next
  case False
  with assms(1) show ?thesis
    by (auto simp: writeWARC_def writeWARC_submit_def os_Remove_def Let_def
        split: sum.splits if_splits)
qed

text \<open>
  C10, as stated, names the file \<^verbatim>\<open>{JobPath}/temp/{UUID}.temp\<close>. With an empty job path
  that name is \<^verbatim>\<open>/temp/u1.temp\<close>, but \<^verbatim>\<open>filepath.Join\<close> drops the empty element and
  the file is made at the relative path \<^verbatim>\<open>temp/u1.temp\<close>.
\<close>

theorem dumpResponseToFile_name_counterexample:
  "JobPath ex_crawl_nojob = [] \<and>
   fst (dumpResponseToFile ex_env ex_crawl_nojob (ex_resp (- 1)) ex_world)
     = (''temp/u1.temp'', None) \<and>
   JobPath ex_crawl_nojob @ ''/temp/'' @ NewV4 ex_env @ ''.temp'' = ''/temp/u1.temp'' \<and>
   files (snd (dumpResponseToFile ex_env ex_crawl_nojob (ex_resp (- 1)) ex_world))
     ''/temp/u1.temp'' = None \<and>
   files (snd (dumpResponseToFile ex_env ex_crawl_nojob (ex_resp (- 1)) ex_world))
     ''temp/u1.temp'' = Some ''W''"
  by (simp add: run_defs ex_defs ex_crawl_nojob_def)

text \<open>
  C10 (amended): with a fresh UUID (no file at the path yet), \<^verbatim>\<open>dumpResponseToFile\<close>
  either returns without error the path \<^verbatim>\<open>filepath.Join(JobPath, "temp", UUID + ".temp")\<close>,
  the file now existing there with exactly the bytes \<^verbatim>\<open>resp.Write\<close> wrote, or returns
  an error with the empty path and no file at that path: the open failed and nothing was
  created, or the write failed and the file was removed. The joined path is
  \<^verbatim>\<open>{JobPath}/temp/{UUID}.temp\<close> whenever the job path is a non-empty relative or absolute
  path of plain elements and the UUID string holds no separator.
\<close>

theorem dumpResponseToFile_joined_path_or_error:
  assumes "files w (filepath_Join [JobPath c, ''temp'', NewV4 env @ ''.temp'']) = None"
  shows "(let p = filepath_Join [JobPath c, ''temp'', NewV4 env @ ''.temp''] in
          ((\<exists>bytes. dumpResponseToFile env c resp w =
              ((p, None), w\<lparr>files := (files w)(p \<mapsto> bytes)\<rparr>) \<and>
              OpenFile env p = None \<and> resp_Write env resp = (bytes, None)) \<or>
           (\<exists>e. dumpResponseToFile env c resp w = (([], Some e), w) \<and>
              files (snd (dumpResponseToFile env c resp w)) p = None \<and>
              (OpenFile env p = Some e \<or>
               OpenFile env p = None \<and> snd (resp_Write env resp) = Some e))) \<and>
          (plain_path (JobPath c) \<and> CHR ''/'' \<notin> set (NewV4 env) \<longrightarrow>
             p = JobPath c @ ''/temp/'' @ NewV4 env @ ''.temp''))"
proof -
  have p: "filepath_Join [JobPath c, ''temp'', NewV4 env @ ''.temp''] = spoolPath env c"
    by (simp add: spoolPath_def)
  from assms have f: "files w (spoolPath env c) = None"
    by (simp only: p)
  then have u: "w\<lparr>files := (files w)(spoolPath env c := None)\<rparr> = w"
    by (simp add: fun_upd_idem)
  have outcome:
    "(\<exists>bytes. dumpResponseToFile env c resp w =
        ((spoolPath env c, None), w\<lparr>files := (files w)(spoolPath env c \<mapsto> bytes)\<rparr>) \<and>
        OpenFile env (spoolPath env c) = None \<and> resp_Write env resp = (bytes, None)) \<or>
     (\<exists>e. dumpResponseToFile env c resp w = (([], Some e), w) \<and>
        files (snd (dumpResponseToFile env c resp w)) (spoolPath env c) = None \<and>
        (OpenFile env (spoolPath env c) = Some e \<or>
         OpenFile env (spoolPath env c) = None \<and> snd (resp_Write env resp) = Some e))"
    using f
    by (cases "OpenFile env (spoolPath env c)"; cases "resp_Write env resp";
        cases "snd (resp_Write env resp)")
       (simp_all add: dumpResponseToFile_cases u)
  have name: "spoolPath env c = JobPath c @ ''/temp/'' @ NewV4 env @ ''.temp''"
    if "plain_path (JobPath c)" "CHR ''/'' \<notin> set (NewV4 env)"
  proof -
    from plain_path_decompose [OF that(1)] obtain root js where
      "JobPath c = root @ join_sep js" "root = [] \<or> root = ''/''" "js \<noteq> []"
      "\<forall>e\<in>set js. plain_name e"
      by blast
    then show ?thesis
      using that(2) by (rule spoolPath_plain)
  qed
  from outcome name show ?thesis
    unfolding Let_def p by blast
qed

theorem dumpResponseToFile_joined_path_or_error_witness:
  "files ex_world (filepath_Join [JobPath ex_crawl, ''temp'', NewV4 ex_env @ ''.temp'']) = None \<and>
   plain_path (JobPath ex_crawl) \<and> CHR ''/'' \<notin> set (NewV4 ex_env) \<and>
   filepath_Join [JobPath ex_crawl, ''temp'', NewV4 ex_env @ ''.temp'']
     = ''jobs/j1/temp/u1.temp'' \<and>
   dumpResponseToFile ex_env ex_crawl (ex_resp (- 1)) ex_world =
     ((''jobs/j1/temp/u1.temp'', None),
      \<lparr>files = [''jobs/j1/temp/u1.temp'' \<mapsto> ''W''], ops = []\<rparr>)"
proof -
  have h: "files ex_world (filepath_Join [JobPath ex_crawl, ''temp'', NewV4 ex_env @ ''.temp''])
             = None"
    by (simp add: ex_defs)
  have pl: "plain_path (JobPath ex_crawl)" "CHR ''/'' \<notin> set (NewV4 ex_env)"
    by (simp_all add: plain_path_def plain_name_def ex_defs)
  have v: "JobPath ex_crawl @ ''/temp/'' @ NewV4 ex_env @ ''.temp'' = ''jobs/j1/temp/u1.temp''"
    by (simp add: ex_defs)
  have r: "resp_Write ex_env (ex_resp (- 1)) = (''W'', None)"
    "OpenFile ex_env ''jobs/j1/temp/u1.temp'' = None"
    "ex_world\<lparr>files := (files ex_world)(''jobs/j1/temp/u1.temp'' \<mapsto> ''W'')\<rparr> =
       \<lparr>files = [''jobs/j1/temp/u1.temp'' \<mapsto> ''W''], ops = []\<rparr>"
    by (simp_all add: ex_defs)
  note t = dumpResponseToFile_joined_path_or_error [OF h, of "ex_resp (- 1)", unfolded Let_def]
  from t pl
  have "filepath_Join [JobPath ex_crawl, ''temp'', NewV4 ex_env @ ''.temp'']
          = JobPath ex_crawl @ ''/temp/'' @ NewV4 ex_env @ ''.temp''"
    by blast
  then have n: "filepath_Join [JobPath ex_crawl, ''temp'', NewV4 ex_env @ ''.temp'']
             = ''jobs/j1/temp/u1.temp''"
    using v by (rule trans)
  from t have "dumpResponseToFile ex_env ex_crawl (ex_resp (- 1)) ex_world =
     ((''jobs/j1/temp/u1.temp'', None),
      \<lparr>files = [''jobs/j1/temp/u1.temp'' \<mapsto> ''W''], ops = []\<rparr>)"
    unfolding n using r by auto
  with h pl n show ?thesis by simp
qed

text \<open>The two error paths of \<^verbatim>\<open>dumpResponseToFile\<close> on concrete inputs.\<close>

lemma dumpResponseToFile_write_error_example:
  "dumpResponseToFile ex_env_writefail ex_crawl (ex_resp (- 1)) ex_world =
     (([], Some (Error ''short write'')), ex_world)"
  by (simp add: run_defs ex_defs ex_env_writefail_def)

lemma dumpResponseToFile_open_error_example:
  "dumpResponseToFile ex_env_openfail ex_crawl (ex_resp (- 1)) ex_world =
     (([], Some (Error ''open'')), ex_world)"
  by (simp add: run_defs ex_defs ex_env_openfail_def)


subsection \<open>The barrier of \<^verbatim>\<open>writeWARCFromConnection\<close>\<close>

lemma swg_Done_New [simp]: "swg_Done (swg_New 2) = Blocked"
  by (simp add: swg_Done_def swg_New_def)

lemma swg_Wait_New [simp]: "swg_Wait (swg_New 2) = Next (swg_New 2)"
  by (simp add: swg_Wait_def swg_New_def)

lemma conn_inv_init: "conn_inv u rq rs conn_init"
  by (simp add: conn_inv_def conn_init_def received_def NewRecordBatch_def)

lemma task_ok_cases:
  "task_ok b pc \<Longrightarrow> pc = T_Copy \<or> pc = T_Send b \<or> pc = T_Done"
  by (cases pc) auto

lemma conn_inv_main_step:
  assumes "conn_inv u rq rs s" and "main_step s = Some t"
  shows "conn_inv u rq rs t"
  using assms
  by (cases "conn_main s")
     (auto simp: conn_inv_def main_step_def received_def split: if_splits)


lemma conn_inv_request_step:
  assumes "conn_inv u rq rs s" and "req_pipe io = Inr rq" and "conn_URL io = u"
    and "step_of io RequestTask s = Some t"
  shows "conn_inv u rq rs t"
proof -
  from assms(1) have "task_ok rq (conn_req s)"
    by (simp add: conn_inv_def)
  then consider "conn_req s = T_Copy" | "conn_req s = T_Send rq" | "conn_req s = T_Done"
    using task_ok_cases by blast
  then show ?thesis
  proof cases
    case 1
    with assms show ?thesis
      by (auto simp: conn_inv_def task_step_def received_def split: if_splits main_pc.splits)
  next
    case 2
    with assms show ?thesis
      by (cases "conn_main s")
         (auto simp: conn_inv_def task_step_def received_def split: if_splits)
  next
    case 3
    with assms show ?thesis
      by (auto simp: conn_inv_def task_step_def)
  qed
qed

lemma conn_inv_response_step:
  assumes "conn_inv u rq rs s" and "resp_pipe io = Inr rs" and "conn_URL io = u"
    and "step_of io ResponseTask s = Some t"
  shows "conn_inv u rq rs t"
proof -
  from assms(1) have "task_ok rs (conn_resp s)"
    by (simp add: conn_inv_def)
  then consider "conn_resp s = T_Copy" | "conn_resp s = T_Send rs" | "conn_resp s = T_Done"
    using task_ok_cases by blast
  then show ?thesis
  proof cases
    case 1
    with assms show ?thesis
      by (auto simp: conn_inv_def task_step_def received_def split: if_splits main_pc.splits)
  next
    case 2
    with assms show ?thesis
      by (cases "conn_main s")
         (auto simp: conn_inv_def task_step_def received_def split: if_splits)
  next
    case 3
    with assms show ?thesis
      by (auto simp: conn_inv_def task_step_def)
  qed
qed

lemma conn_inv_step:
  assumes "conn_inv u rq rs s" and "req_pipe io = Inr rq" and "resp_pipe io = Inr rs"
    and "conn_URL io = u" and "conn_step io s t"
  shows "conn_inv u rq rs t"
  using assms conn_inv_main_step conn_inv_request_step conn_inv_response_step
  unfolding conn_step_def by (metis step_of.simps(1))

lemma conn_inv_reachable:
  assumes "(conn_step io)\<^sup>*\<^sup>* conn_init s" and "req_pipe io = Inr rq"
    and "resp_pipe io = Inr rs" and "conn_URL io = u"
  shows "conn_inv u rq rs s"
  using assms
proof (induction rule: rtranclp_induct)
  case base
  show ?case by (rule conn_inv_init)
next
  case (step y z)
  then show ?case using conn_inv_step by blast
qed

lemma conn_progress:
  assumes "conn_inv u rq rs s" and "req_pipe io = Inr rq" and "resp_pipe io = Inr rs"
    and "conn_main s \<noteq> M_Returned"
  shows "\<exists>t. conn_step io s t"
proof (cases "conn_main s")
  case M_Wait
  with assms(1) have "main_step s \<noteq> None"
    by (simp add: main_step_def conn_inv_def)
  then show ?thesis
    by (auto simp: conn_step_def)
next
  case (M_Loop i)
  show ?thesis
  proof (cases "i < 2")
    case False
    with M_Loop assms(1) have "main_step s \<noteq> None"
      by (simp add: main_step_def conn_inv_def)
    then show ?thesis
      by (auto simp: conn_step_def)
  next
    case True
    with M_Loop assms(1) have "conn_req s \<noteq> T_Done \<or> conn_resp s \<noteq> T_Done"
      by (auto simp: conn_inv_def received_def)
    moreover from assms(1) have ok: "task_ok rq (conn_req s)" "task_ok rs (conn_resp s)"
      "\<not> conn_crashed s"
      by (simp_all add: conn_inv_def)
    ultimately consider "conn_req s = T_Copy" | "conn_req s = T_Send rq"
      | "conn_resp s = T_Copy" | "conn_resp s = T_Send rs"
      using task_ok_cases by blast
    then show ?thesis
    proof cases
      case 1
      with ok assms(2) have "step_of io RequestTask s \<noteq> None"
        by (simp add: task_step_def)
      then show ?thesis by (auto simp: conn_step_def)
    next
      case 2
      with ok M_Loop True have "step_of io RequestTask s \<noteq> None"
        by (simp add: task_step_def)
      then show ?thesis by (auto simp: conn_step_def)
    next
      case 3
      with ok assms(3) have "step_of io ResponseTask s \<noteq> None"
        by (simp add: task_step_def)
      then show ?thesis by (auto simp: conn_step_def)
    next
      case 4
      with ok M_Loop True have "step_of io ResponseTask s \<noteq> None"
        by (simp add: task_step_def)
      then show ?thesis by (auto simp: conn_step_def)
    qed
  qed
next
  case M_Returned
  with assms(4) show ?thesis by simp
qed

lemma task_step_rank:
  "task_step pipe record pc s = Some (pc', t) \<Longrightarrow>
     task_rank pc' < task_rank pc \<and>
     main_rank (conn_main t) \<le> main_rank (conn_main s) \<and>
     conn_req t = conn_req s \<and> conn_resp t = conn_resp s"
  by (cases pc)
     (auto simp: task_step_def split: if_splits sum.splits main_pc.splits outcome.splits)

lemma step_of_measure:
  "step_of io a s = Some t \<Longrightarrow> conn_measure t < conn_measure s"
proof (cases a)
  case Main
  assume "step_of io a s = Some t"
  with Main show ?thesis
    by (cases "conn_main s")
       (auto simp: main_step_def conn_measure_def split: if_splits outcome.splits)
next
  case RequestTask
  assume "step_of io a s = Some t"
  with RequestTask show ?thesis
    using task_step_rank [of "req_pipe io" "connRequestRecord (conn_URL io)" "conn_req s" s]
    by (auto simp: conn_measure_def split: option.splits)
next
  case ResponseTask
  assume "step_of io a s = Some t"
  with ResponseTask show ?thesis
    using task_step_rank [of "resp_pipe io" "connResponseRecord (conn_URL io)" "conn_resp s" s]
    by (auto simp: conn_measure_def split: option.splits)
qed

lemma conn_step_measure: "conn_step io s t \<Longrightarrow> conn_measure t < conn_measure s"
  unfolding conn_step_def using step_of_measure by blast

lemma conn_step_terminates: "wf {(t, s). conn_step io s t}"
proof (rule wf_subset [OF wf_measure [of conn_measure]])
  show "{(t, s). conn_step io s t} \<subseteq> measure conn_measure"
    using conn_step_measure by auto
qed

lemma run_reachable: "run io as s = Some t \<Longrightarrow> (conn_step io)\<^sup>*\<^sup>* s t"
proof (induction as arbitrary: s)
  case Nil
  then show ?case by simp
next
  case (Cons a as)
  then obtain s1 where a: "step_of io a s = Some s1" and r: "run io as s1 = Some t"
    by (auto split: option.splits)
  from a have "conn_step io s s1"
    by (cases a) (auto simp: conn_step_def)
  then show ?case
    using Cons.IH [OF r] by (rule converse_rtranclp_into_rtranclp)
qed


lemma ex_run:
  "run ex_pipes [Main, RequestTask, ResponseTask, ResponseTask, RequestTask, Main] conn_init
     = Some ex_final"
  by (simp add: main_step_def task_step_def conn_init_def ex_pipes_def ex_final_def
      NewRecordBatch_def)

text \<open>
  C2: \<^verbatim>\<open>writeWARCFromConnection\<close> should wait for both draining tasks at a counted
  completion barrier. It does not: no \<^verbatim>\<open>swg.Add()\<close> is ever called, so the counter is
  zero and \<^verbatim>\<open>swg.Wait()\<close> lets the caller through at once, while both tasks are still
  copying. In no state the function reaches has the wait group changed or a task finished
  its deferred \<^verbatim>\<open>swg.Done()\<close>: a task that gets there stays blocked in it.
\<close>

theorem writeWARCFromConnection_barrier_never_waits:
  "main_step conn_init = Some (conn_init\<lparr>conn_main := M_Loop 0\<rparr>) \<and>
   conn_req (conn_init\<lparr>conn_main := M_Loop 0\<rparr>) = T_Copy \<and>
   conn_resp (conn_init\<lparr>conn_main := M_Loop 0\<rparr>) = T_Copy \<and>
   ((conn_step io)\<^sup>*\<^sup>* conn_init s \<longrightarrow>
      conn_swg s = swg_New 2 \<and> conn_req s \<noteq> T_Finished \<and> conn_resp s \<noteq> T_Finished \<and>
      (conn_req s = T_Done \<longrightarrow> step_of io RequestTask s = None) \<and>
      (conn_resp s = T_Done \<longrightarrow> step_of io ResponseTask s = None))"
proof -
  have w: "main_step conn_init = Some (conn_init\<lparr>conn_main := M_Loop 0\<rparr>)"
    by (simp add: main_step_def conn_init_def)
  have t: "conn_req (conn_init\<lparr>conn_main := M_Loop 0\<rparr>) = T_Copy"
    "conn_resp (conn_init\<lparr>conn_main := M_Loop 0\<rparr>) = T_Copy"
    by (simp_all add: conn_init_def)
  have r: "conn_swg s = swg_New 2 \<and> conn_req s \<noteq> T_Finished \<and> conn_resp s \<noteq> T_Finished"
    if "(conn_step io)\<^sup>*\<^sup>* conn_init s"
    using that
  proof (induction rule: rtranclp_induct)
    case base
    show ?case by (simp add: conn_init_def)
  next
    case (step y z)
    from step.hyps(2) consider "main_step y = Some z" | "step_of io RequestTask y = Some z"
      | "step_of io ResponseTask y = Some z"
      by (auto simp: conn_step_def)
    then show ?case
    proof cases
      case 1
      with step.IH show ?thesis
        by (cases "conn_main y") (auto simp: main_step_def split: if_splits outcome.splits)
    next
      case 2
      with step.IH show ?thesis
        by (cases "conn_req y")
           (auto simp: task_step_def split: if_splits sum.splits main_pc.splits)
    next
      case 3
      with step.IH show ?thesis
        by (cases "conn_resp y")
           (auto simp: task_step_def split: if_splits sum.splits main_pc.splits)
    qed
  qed
  have b: "step_of io RequestTask s = None" if "conn_swg s = swg_New 2" "conn_req s = T_Done"
    using that by (simp add: task_step_def)
  have c: "step_of io ResponseTask s = None" if "conn_swg s = swg_New 2" "conn_resp s = T_Done"
    using that by (simp add: task_step_def)
  from w t r b c show ?thesis by blast
qed

theorem writeWARCFromConnection_barrier_never_waits_witness:
  "(conn_step ex_pipes)\<^sup>*\<^sup>* conn_init ex_final \<and>
   conn_main ex_final = M_Returned \<and>
   conn_req ex_final = T_Done \<and> conn_resp ex_final = T_Done \<and>
   conn_swg ex_final = swg_New 2 \<and>
   step_of ex_pipes RequestTask ex_final = None \<and>
   step_of ex_pipes ResponseTask ex_final = None"
proof -
  have h: "(conn_step ex_pipes)\<^sup>*\<^sup>* conn_init ex_final"
    using ex_run by (rule run_reachable)
  have d: "conn_req ex_final = T_Done" "conn_resp ex_final = T_Done"
    "conn_main ex_final = M_Returned"
    by (simp_all add: ex_final_def)
  from writeWARCFromConnection_barrier_never_waits [of ex_pipes ex_final] h d
  show ?thesis by simp
qed

text \<open>
  The rest of C2 holds of the caller: when both pipes deliver their bytes, every step
  decreases the measure, the caller can always go on until it has returned, and it returns
  having sent one batch with both records (in either order); the two receives on
  \<^verbatim>\<open>recordChan\<close> do the waiting.
\<close>

lemma writeWARCFromConnection_main_returns:
  assumes "req_pipe io = Inr rq" and "resp_pipe io = Inr rs"
    and "(conn_step io)\<^sup>*\<^sup>* conn_init s"
  shows "(conn_main s \<noteq> M_Returned \<longrightarrow> (\<exists>t. conn_step io s t)) \<and>
         (conn_main s = M_Returned \<longrightarrow>
            (\<exists>b. conn_WARCWriter s = [Send b] \<and> \<not> Done b \<and>
               (Records b = [connRequestRecord (conn_URL io) rq, connResponseRecord (conn_URL io) rs] \<or>
                Records b = [connResponseRecord (conn_URL io) rs, connRequestRecord (conn_URL io) rq])))"
proof -
  from assms have inv: "conn_inv (conn_URL io) rq rs s"
    by (simp add: conn_inv_reachable)
  show ?thesis
  proof (intro conjI impI)
    assume "conn_main s \<noteq> M_Returned"
    with inv assms(1,2) show "\<exists>t. conn_step io s t"
      by (rule conn_progress)
  next
    assume "conn_main s = M_Returned"
    with inv show "\<exists>b. conn_WARCWriter s = [Send b] \<and> \<not> Done b \<and>
               (Records b = [connRequestRecord (conn_URL io) rq, connResponseRecord (conn_URL io) rs] \<or>
                Records b = [connResponseRecord (conn_URL io) rs, connRequestRecord (conn_URL io) rq])"
      by (auto simp: conn_inv_def received_def split: if_splits)
  qed
qed

subsection \<open>Capture\<close>

text \<open>
  C6: whichever variant runs and whether or not it returns an error, \<^verbatim>\<open>Capture\<close> leaves
  the rate counter exactly one higher: not unchanged, and not two higher.
\<close>

theorem Capture_increments_once:
  "URLsPerSecond (fst (snd (Capture net c item))) = URLsPerSecond c + 1 \<and>
   URLsPerSecond (fst (snd (Capture net c item))) \<noteq> URLsPerSecond c \<and>
   URLsPerSecond (fst (snd (Capture net c item))) \<noteq> URLsPerSecond c + 2"
proof -
  have "URLsPerSecond (fst (snd (Capture net c item))) = URLsPerSecond c + 1"
    by (simp add: Capture_def Incr_def Let_def split: prod.splits option.splits)
  then show ?thesis by simp
qed

theorem Capture_increments_once_witness:
  "URLsPerSecond (fst (snd (Capture ex_net ex_crawl ex_item))) = 42 \<and>
   URLsPerSecond (fst (snd (Capture (ex_net\<lparr>network_Enable := Some (Error ''cdp'')\<rparr>)
     ex_crawl ex_item))) = 42 \<and>
   snd (fst (Capture (ex_net\<lparr>network_Enable := Some (Error ''cdp'')\<rparr>) ex_crawl ex_item))
     = Some (Error ''cdp'')"
proof -
  have c: "URLsPerSecond ex_crawl = 41"
    by (simp add: ex_crawl_def)
  have e: "snd (fst (Capture (ex_net\<lparr>network_Enable := Some (Error ''cdp'')\<rparr>) ex_crawl ex_item))
     = Some (Error ''cdp'')"
    by (simp add: Capture_def captureWithBrowser_def Incr_def Let_def ex_defs ex_net_def
        ex_item_def)
  from Capture_increments_once [of ex_net ex_crawl ex_item]
    Capture_increments_once [of "ex_net\<lparr>network_Enable := Some (Error ''cdp'')\<rparr>" ex_crawl ex_item]
  show ?thesis by (simp add: c e)
qed

text \<open>
  C7: with \<^verbatim>\<open>MaxHops\<close> zero, \<^verbatim>\<open>captureWithBrowser\<close> returns no outlinks and never calls
  the outlink extraction; the extraction is called only when \<^verbatim>\<open>MaxHops\<close> is positive.
\<close>

theorem captureWithBrowser_MaxHops_zero:
  "(MaxHops c = 0 \<longrightarrow>
      fst (fst (captureWithBrowser net c item)) = [] \<and>
      \<not> extraction_attempted (snd (captureWithBrowser net c item))) \<and>
   (extraction_attempted (snd (captureWithBrowser net c item)) \<longrightarrow> 0 < MaxHops c)"
  by (simp add: captureWithBrowser_def outlinksAction_def extraction_attempted_def
      split: option.splits sum.splits)

theorem captureWithBrowser_MaxHops_zero_witness:
  "MaxHops ex_crawl = 0 \<and>
   fst (fst (captureWithBrowser ex_net ex_crawl ex_item)) = [] \<and>
   \<not> extraction_attempted (snd (captureWithBrowser ex_net ex_crawl ex_item)) \<and>
   extraction_attempted (snd (captureWithBrowser ex_net (ex_crawl\<lparr>MaxHops := 1\<rparr>) ex_item)) \<and>
   0 < MaxHops (ex_crawl\<lparr>MaxHops := 1\<rparr>)"
proof -
  have h1: "MaxHops ex_crawl = 0"
    by (simp add: ex_defs)
  have h2: "extraction_attempted (snd (captureWithBrowser ex_net (ex_crawl\<lparr>MaxHops := 1\<rparr>) ex_item))"
    by (simp add: captureWithBrowser_def outlinksAction_def extraction_attempted_def ex_defs
        ex_net_def ex_item_def)
  from captureWithBrowser_MaxHops_zero [of ex_crawl ex_net ex_item]
    captureWithBrowser_MaxHops_zero [of "ex_crawl\<lparr>MaxHops := 1\<rparr>" ex_net ex_item] h1 h2
  show ?thesis by simp
qed

text \<open>
  C9: when the GET request and the read of the body succeed, \<^verbatim>\<open>captureWithGET\<close> reads
  the body, calls the outlink extraction on it and returns its result, whatever
  \<^verbatim>\<open>MaxHops\<close> is; in particular it does so with \<^verbatim>\<open>MaxHops\<close> zero.
\<close>

theorem captureWithGET_extracts_at_any_MaxHops:
  assumes "http_Get net (url_String (item_URL item)) = Inr resp"
    and "Body resp = Inr body"
  shows "captureWithGET net c item =
           ((extractOutlinks net body, None),
            [CallGet (url_String (item_URL item)), CallReadAll, CallExtractOutlinks body]) \<and>
         captureWithGET net (c\<lparr>MaxHops := 0\<rparr>) item = captureWithGET net c item \<and>
         extraction_attempted (snd (captureWithGET net (c\<lparr>MaxHops := 0\<rparr>) item))"
  using assms by (simp add: captureWithGET_def extraction_attempted_def)

theorem captureWithGET_extracts_at_any_MaxHops_witness:
  "http_Get ex_net (url_String (item_URL ex_item)) = Inr (ex_resp 11) \<and>
   Body (ex_resp 11) = Inr ''<a href=/y>'' \<and>
   MaxHops ex_crawl = 0 \<and>
   captureWithGET ex_net ex_crawl ex_item =
     (([ex_url], None),
      [CallGet ''http://a.b/x y'', CallReadAll, CallExtractOutlinks ''<a href=/y>''])"
proof -
  have h1: "http_Get ex_net (url_String (item_URL ex_item)) = Inr (ex_resp 11)"
    by (simp add: ex_defs ex_net_def ex_item_def)
  have h2: "Body (ex_resp 11) = Inr ''<a href=/y>''"
    by (simp add: ex_defs ex_net_def ex_item_def)
  have r: "MaxHops ex_crawl = 0" "extractOutlinks ex_net ''<a href=/y>'' = [ex_url]"
    "url_String (item_URL ex_item) = ''http://a.b/x y''"
    by (simp_all add: ex_defs ex_net_def ex_item_def)
  from captureWithGET_extracts_at_any_MaxHops [OF h1 h2, of ex_crawl] h1 h2 r
  show ?thesis by simp
qed

end
